theory Spec2Isabelle
  imports Main "HOL-Library.AList"
begin

section \<open>pylint-per-file-ignores: the plugin module\<close>

text \<open>
  A shallow embedding of \<^verbatim>\<open>pylint_per_file_ignores/_plugin.py\<close>. The plugin parses the
  option \<^verbatim>\<open>per-file-ignores\<close>, resolves every entry to files and message definitions, and
  replaces \<^verbatim>\<open>add_message\<close> on the class of every owning checker by a wrapper that drops
  the emission or calls the method it replaced.

  The host (pylint, \<^verbatim>\<open>glob\<close>, \<^verbatim>\<open>pathlib\<close>, \<^verbatim>\<open>re\<close>) is not part of the module; what the
  module uses of it is modelled as follows.
  \<^item> Exceptions are values of \<open>error\<close>; a function that may raise returns \<open>error + 'a\<close>.
  \<^item> A linter object is a reference (\<open>nat\<close>) into a heap of linter states, since the
    wrapper closes over the linter object and reads its fields when it is called.
  \<^item> A class is identified by its name; the attribute \<^verbatim>\<open>add_message\<close> of a class is the
    list of wrappers installed on it, newest first, the empty list being the method of
    the host. Checker classes are taken not to inherit from each other.
  \<^item> \<^verbatim>\<open>glob.glob\<close> and \<^verbatim>\<open>Path(..).absolute()\<close> are functions of the environment.
\<close>

subsection \<open>Strings\<close>

definition newline :: char where
  "newline = CHR 0x0A"

text \<open>
  The characters that \<^verbatim>\<open>str.strip()\<close> removes, those with \<^verbatim>\<open>str.isspace\<close>, among the code
  points up to U+00FF that a \<open>char\<close> holds.
\<close>

definition isspace :: "char \<Rightarrow> bool" where
  "isspace c = (c \<in> set
     [CHR 0x20, CHR 0x09, CHR 0x0A, CHR 0x0B, CHR 0x0C, CHR 0x0D,
      CHR 0x1C, CHR 0x1D, CHR 0x1E, CHR 0x1F, CHR 0x85, CHR 0xA0])"

text \<open>\<^verbatim>\<open>s.strip()\<close>\<close>

definition strip :: "string \<Rightarrow> string" where
  "strip s = rev (dropWhile isspace (rev (dropWhile isspace s)))"

text \<open>\<^verbatim>\<open>s.split(sep)\<close> for a separator of one character: never the empty list.\<close>

fun split :: "char \<Rightarrow> string \<Rightarrow> string list" where
  "split sep [] = [[]]"
| "split sep (c # cs) =
     (if c = sep then [] # split sep cs
      else (case split sep cs of [] \<Rightarrow> [[c]] | w # ws \<Rightarrow> (c # w) # ws))"

text \<open>
  \<^verbatim>\<open>pylint.utils._splitstrip(string, sep)\<close>, which is
  \<^verbatim>\<open>[word.strip() for word in string.split(sep) if word.strip()]\<close>.
\<close>

definition splitstrip :: "string \<Rightarrow> char \<Rightarrow> string list" where
  "splitstrip s sep = map strip (filter (\<lambda>word. strip word \<noteq> []) (split sep s))"

text \<open>
  \<^verbatim>\<open>re.sub(r",([^,:]+:)", r"\n\1", input_string)\<close>. Scanning from the left, a match starts
  at a comma that is followed by a non-empty longest run of characters other than comma
  and colon, itself followed by a colon; the comma becomes a line break, the run and the
  colon are kept, and scanning goes on behind the colon. Any other character is kept.
\<close>

definition no_sep :: "char \<Rightarrow> bool" where
  "no_sep c = (c \<noteq> CHR '','' \<and> c \<noteq> CHR '':'')"

lemma length_dropWhile_pred: "length (dropWhile P cs) - Suc 0 < Suc (length cs)"
proof -
  have "length (dropWhile P cs) \<le> length cs"
    by (rule length_dropWhile_le)
  then show ?thesis by arith
qed

function re_sub :: "string \<Rightarrow> string" where
  "re_sub [] = []"
| "re_sub (c # cs) =
     (if c = CHR '','' \<and> takeWhile no_sep cs \<noteq> [] \<and>
         dropWhile no_sep cs \<noteq> [] \<and> hd (dropWhile no_sep cs) = CHR '':''
      then newline # takeWhile no_sep cs @ CHR '':'' # re_sub (tl (dropWhile no_sep cs))
      else c # re_sub cs)"
  by pat_completeness auto
termination
  by (relation "measure length") (simp_all add: length_dropWhile_pred)

text \<open>\<^verbatim>\<open>_parse_string\<close>\<close>

definition parse_string :: "string \<Rightarrow> string list" where
  "parse_string input_string =
     (if newline \<notin> set input_string
      then splitstrip (re_sub input_string) newline
      else splitstrip input_string newline)"

subsection \<open>The host's objects\<close>

datatype error = ValueError | UnknownMessageError | AssertionError | IndexError | TypeError

text \<open>
  A \<^verbatim>\<open>MessageDefinition\<close>: pylint compares two of them by message id and symbol, which is
  the equality of this record.
\<close>

record MessageDefinition =
  msgid :: string
  symbol :: string

text \<open>
  A checker: its class, its name and its catalogue \<^verbatim>\<open>msgs\<close>, a dict from message id to
  a tuple whose component 1 is the symbol (the only component the module reads).
\<close>

record checker =
  cls :: string
  name :: string
  msgs :: "(string \<times> string) list"

text \<open>
  \<^verbatim>\<open>BaseChecker.__eq__\<close> and \<^verbatim>\<open>__hash__\<close> compare the name and the catalogue: this is the
  equality of the keys of the dict \<^verbatim>\<open>checkers\<close>.
\<close>

definition checker_eq :: "checker \<Rightarrow> checker \<Rightarrow> bool" where
  "checker_eq a b = (name a = name b \<and> msgs a = msgs b)"

text \<open>The values passed to \<^verbatim>\<open>add_message\<close>.\<close>

datatype pyval = PyStr string | PyInt int | PyNone | PyObj nat

type_synonym kwargs = "(string \<times> pyval) list"

text \<open>
  The fields of a \<^verbatim>\<open>PyLinter\<close> the module reads. \<open>msgs_store\<close> is
  \<^verbatim>\<open>linter.msgs_store.get_message_definitions\<close> on strings, \<open>None\<close> where it raises
  \<^verbatim>\<open>UnknownMessageError\<close> (or one of its subclasses).
\<close>

record linter =
  per_file_ignores :: string
  get_checkers :: "checker list"
  msgs_store :: "string \<Rightarrow> MessageDefinition list option"
  current_file :: "string option"

type_synonym heap = "nat \<Rightarrow> linter"

record os_env =
  glob :: "string \<Rightarrow> string list"
  absolute :: "string \<Rightarrow> string"

definition get_message_definitions :: "linter \<Rightarrow> pyval \<Rightarrow> error + MessageDefinition list" where
  "get_message_definitions l v =
     (case v of
        PyStr s \<Rightarrow> (case msgs_store l s of None \<Rightarrow> Inl UnknownMessageError | Some defs \<Rightarrow> Inr defs)
      | PyInt i \<Rightarrow> Inl TypeError
      | PyNone \<Rightarrow> Inl TypeError
      | PyObj r \<Rightarrow> Inl TypeError)"

subsection \<open>Resolving a rule to its checker\<close>

text \<open>\<^verbatim>\<open>rule in [key, value[1]]\<close> for some item of \<^verbatim>\<open>checker.msgs\<close>\<close>

definition declares :: "string \<Rightarrow> checker \<Rightarrow> bool" where
  "declares rule c = list_ex (\<lambda>(key, sym). rule = key \<or> rule = sym) (msgs c)"

text \<open>\<^verbatim>\<open>_get_checker_by_msg\<close>: the first checker that declares the rule.\<close>

definition get_checker_by_msg :: "linter \<Rightarrow> string \<Rightarrow> error + checker" where
  "get_checker_by_msg l rule =
     (case List.find (declares rule) (get_checkers l) of
        None \<Rightarrow> Inl UnknownMessageError
      | Some c \<Rightarrow> Inr c)"

subsection \<open>The wrapper\<close>

text \<open>
  What a wrapper closes over: the linter object (by reference), the list \<^verbatim>\<open>files\<close> and
  the list \<^verbatim>\<open>ppfi_messages\<close>. The method it replaced, \<^verbatim>\<open>ppfi_func\<close>, is the rest of the
  chain of its class.
\<close>

record wrapper =
  ppfi_linter :: nat
  ppfi_files :: "string list"
  ppfi_messages :: "MessageDefinition list"

text \<open>
  The end of a call of \<^verbatim>\<open>add_message\<close> on a checker: the wrapper returned without calling
  further (\<open>Dropped\<close>), the host's own method was called with these arguments
  (\<open>Emitted\<close>), or an exception left the wrapper (\<open>Raised\<close>).
\<close>

datatype outcome = Dropped | Emitted "pyval list" kwargs | Raised error

text \<open>
  \<^verbatim>\<open>_add_message(*args, ppfi_messages, ppfi_func, **kwargs)\<close>. The assertion fails on
  \<^verbatim>\<open>None\<close> and on the empty string. \<^verbatim>\<open>and\<close> evaluates \<^verbatim>\<open>args[1]\<close> and the look-up of its
  definitions only when the file is in \<^verbatim>\<open>files\<close>. Callers are taken not to pass the
  keywords \<^verbatim>\<open>ppfi_messages\<close> and \<^verbatim>\<open>ppfi_func\<close> themselves.
\<close>

definition add_message ::
  "os_env \<Rightarrow> heap \<Rightarrow> wrapper \<Rightarrow> (pyval list \<Rightarrow> kwargs \<Rightarrow> outcome) \<Rightarrow>
   pyval list \<Rightarrow> kwargs \<Rightarrow> outcome" where
  "add_message env h w ppfi_func args kw =
     (case current_file (h (ppfi_linter w)) of
        None \<Rightarrow> Raised AssertionError
      | Some f \<Rightarrow>
          if f = [] then Raised AssertionError
          else if absolute env f \<in> set (ppfi_files w) then
            (if length args < 2 then Raised IndexError
             else
               (case get_message_definitions (h (ppfi_linter w)) (args ! 1) of
                  Inl e \<Rightarrow> Raised e
                | Inr defs \<Rightarrow>
                    if list_ex (\<lambda>msg. msg \<in> set (ppfi_messages w)) defs then Dropped
                    else ppfi_func args kw))
          else ppfi_func args kw)"

text \<open>
  \<^verbatim>\<open>add_message\<close> of a class: its wrappers, newest first, in front of the host's method.
\<close>

type_synonym class_table = "string \<Rightarrow> wrapper list"

primrec call_chain ::
  "os_env \<Rightarrow> heap \<Rightarrow> wrapper list \<Rightarrow> pyval list \<Rightarrow> kwargs \<Rightarrow> outcome" where
  "call_chain env h [] = Emitted"
| "call_chain env h (w # ws) = add_message env h w (call_chain env h ws)"

subsection \<open>Installing the wrappers of one entry\<close>

type_synonym groups = "(checker \<times> MessageDefinition list) list"

text \<open>\<^verbatim>\<open>checkers[c].extend(defs)\<close> on the \<^verbatim>\<open>defaultdict(list)\<close>, in insertion order.\<close>

fun extend_group :: "checker \<Rightarrow> MessageDefinition list \<Rightarrow> groups \<Rightarrow> groups" where
  "extend_group c defs [] = [(c, defs)]"
| "extend_group c defs ((k, v) # rest) =
     (if checker_eq k c then (k, v @ defs) # rest
      else (k, v) # extend_group c defs rest)"

text \<open>The first loop of \<^verbatim>\<open>_augment_add_message\<close>: either look-up may raise.\<close>

fun resolve_rules :: "linter \<Rightarrow> string list \<Rightarrow> groups \<Rightarrow> error + groups" where
  "resolve_rules l [] g = Inr g"
| "resolve_rules l (rule # rules) g =
     (case get_message_definitions l (PyStr rule) of
        Inl e \<Rightarrow> Inl e
      | Inr defs \<Rightarrow>
          (case get_checker_by_msg l rule of
             Inl e \<Rightarrow> Inl e
           | Inr c \<Rightarrow> resolve_rules l rules (extend_group c defs g)))"

text \<open>
  The second loop: for every group, a new wrapper around the current \<^verbatim>\<open>add_message\<close> of
  the checker's class is stored on the class.
\<close>

fun install :: "nat \<Rightarrow> string list \<Rightarrow> groups \<Rightarrow> class_table \<Rightarrow> class_table" where
  "install r files [] tbl = tbl"
| "install r files ((c, messages) # rest) tbl =
     install r files rest
       (tbl(cls c := \<lparr>ppfi_linter = r, ppfi_files = files, ppfi_messages = messages\<rparr>
              # tbl (cls c)))"

text \<open>
  \<^verbatim>\<open>_augment_add_message(linter, rules=rules, files=files)\<close>, the linter being the object at
  reference \<open>r\<close>. An exception can only leave the first loop, before any class is touched.
\<close>

definition augment_add_message ::
  "heap \<Rightarrow> nat \<Rightarrow> string list \<Rightarrow> string list \<Rightarrow> class_table \<Rightarrow> error + class_table" where
  "augment_add_message h r rules files tbl =
     (case resolve_rules (h r) rules [] of
        Inl e \<Rightarrow> Inl e
      | Inr g \<Rightarrow> Inr (install r files g tbl))"

subsection \<open>Loading the configuration\<close>

text \<open>
  \<^verbatim>\<open>dict(..)\<close> of a sequence of lists: every element must have length 2, else
  \<^verbatim>\<open>ValueError\<close>; a key that is already present keeps its place and takes the new value.
\<close>

fun py_dict :: "string list list \<Rightarrow> (string \<times> string) list \<Rightarrow> error + (string \<times> string) list" where
  "py_dict [] d = Inr d"
| "py_dict (item # items) d =
     (case item of
        [k, v] \<Rightarrow> py_dict items (AList.update k v d)
      | _ \<Rightarrow> Inl ValueError)"

text \<open>The dict \<^verbatim>\<open>config\<close> of \<^verbatim>\<open>load_configuration\<close>.\<close>

definition config_of :: "string \<Rightarrow> error + (string \<times> string) list" where
  "config_of s = py_dict (map (split CHR '':'') (parse_string s)) []"

text \<open>\<^verbatim>\<open>list(filter(None, (rule.strip() for rule in rules_str.split(","))))\<close>\<close>

definition rules_of :: "string \<Rightarrow> string list" where
  "rules_of rules_str = filter (\<lambda>rule. rule \<noteq> []) (map strip (split CHR '','' rules_str))"

text \<open>The pattern without a leading line break, expanded and made absolute.\<close>

definition files_of :: "os_env \<Rightarrow> string \<Rightarrow> string list" where
  "files_of env pattern =
     map (absolute env)
       (glob env (if pattern \<noteq> [] \<and> hd pattern = newline then tl pattern else pattern))"

text \<open>
  The loop over \<^verbatim>\<open>config.items()\<close>. The result is the exception that ended the loop, if
  any, and the classes as they are then.
\<close>

fun load_entries ::
  "os_env \<Rightarrow> heap \<Rightarrow> nat \<Rightarrow> (string \<times> string) list \<Rightarrow> class_table \<Rightarrow>
   error option \<times> class_table" where
  "load_entries env h r [] tbl = (None, tbl)"
| "load_entries env h r ((pattern, rules_str) # rest) tbl =
     (case augment_add_message h r (rules_of rules_str) (files_of env pattern) tbl of
        Inl e \<Rightarrow> (Some e, tbl)
      | Inr tbl' \<Rightarrow> load_entries env h r rest tbl')"

text \<open>\<^verbatim>\<open>load_configuration(linter)\<close>\<close>

definition load_configuration ::
  "os_env \<Rightarrow> heap \<Rightarrow> nat \<Rightarrow> class_table \<Rightarrow> error option \<times> class_table" where
  "load_configuration env h r tbl =
     (case config_of (per_file_ignores (h r)) of
        Inl e \<Rightarrow> (Some e, tbl)
      | Inr config \<Rightarrow> load_entries env h r config tbl)"

subsection \<open>A small registry for the examples\<close>

definition imports_checker :: checker where
  "imports_checker =
     \<lparr>cls = ''ImportsChecker'', name = ''imports'',
      msgs = [(''W0611'', ''unused-import''), (''W0401'', ''wildcard-import'')]\<rparr>"

definition format_checker :: checker where
  "format_checker =
     \<lparr>cls = ''FormatChecker'', name = ''format'', msgs = [(''C0301'', ''line-too-long'')]\<rparr>"

definition example_store :: "string \<Rightarrow> MessageDefinition list option" where
  "example_store s =
     (if s = ''W0611'' \<or> s = ''unused-import''
        then Some [\<lparr>msgid = ''W0611'', symbol = ''unused-import''\<rparr>]
      else if s = ''W0401'' \<or> s = ''wildcard-import''
        then Some [\<lparr>msgid = ''W0401'', symbol = ''wildcard-import''\<rparr>]
      else if s = ''C0301'' \<or> s = ''line-too-long''
        then Some [\<lparr>msgid = ''C0301'', symbol = ''line-too-long''\<rparr>]
      else None)"

text \<open>A linter with the option value \<open>config\<close>, analysing \<open>file\<close>.\<close>

definition example_linter :: "string \<Rightarrow> string option \<Rightarrow> linter" where
  "example_linter config file =
     \<lparr>per_file_ignores = config, get_checkers = [imports_checker, format_checker],
      msgs_store = example_store, current_file = file\<rparr>"

text \<open>A working directory \<^verbatim>\<open>/w\<close> with the files \<^verbatim>\<open>tests/a.py\<close> and \<^verbatim>\<open>other/c.py\<close>.\<close>

definition example_env :: os_env where
  "example_env =
     \<lparr>glob = (\<lambda>pattern. if pattern = ''tests/*'' then [''tests/a.py'']
                        else if pattern = ''other/*'' then [''other/c.py'']
                        else []),
      absolute = (\<lambda>p. ''/w/'' @ p)\<rparr>"

section \<open>Parsing the option\<close>

subsection \<open>Splitting and the dict of entries\<close>

lemma split_length: "length (split c s) = Suc (length (filter (\<lambda>x. x = c) s))"
  by (induction s) (auto split: list.splits)

lemma split_no_sep: "c \<notin> set s \<Longrightarrow> split c s = [s]"
  by (induction s) auto

lemma split_one:
  "length (filter (\<lambda>x. x = c) s) = 1 \<Longrightarrow>
   split c s = [takeWhile (\<lambda>x. x \<noteq> c) s, tl (dropWhile (\<lambda>x. x \<noteq> c) s)]"
proof (induction s)
  case Nil
  then show ?case by simp
next
  case (Cons x xs)
  show ?case
  proof (cases "x = c")
    case True
    with Cons.prems have "c \<notin> set xs"
      by (auto simp: filter_empty_conv)
    with True show ?thesis
      by (simp add: split_no_sep)
  next
    case False
    with Cons show ?thesis by simp
  qed
qed

lemma py_dict_error: "py_dict items d = Inl e \<Longrightarrow> e = ValueError"
  by (induction items arbitrary: d) (auto split: list.splits)

lemma py_dict_bad:
  "\<exists>item\<in>set items. length item \<noteq> 2 \<Longrightarrow> py_dict items d = Inl ValueError"
proof (induction items arbitrary: d)
  case Nil
  then show ?case by simp
next
  case (Cons item items)
  show ?case
  proof (cases "length item = 2")
    case True
    then obtain k v where "item = [k, v]"
      by (auto simp: length_Suc_conv numeral_2_eq_2)
    with Cons True show ?thesis by auto
  next
    case False
    then show ?thesis
      by (auto split: list.splits)
  qed
qed

lemma py_dict_ok:
  "\<forall>item\<in>set items. length item = 2 \<Longrightarrow>
   py_dict items d = Inr (fold (\<lambda>item. AList.update (item ! 0) (item ! 1)) items d)"
proof (induction items arbitrary: d)
  case Nil
  then show ?case by simp
next
  case (Cons item items)
  then obtain k v where "item = [k, v]"
    by (auto simp: length_Suc_conv numeral_2_eq_2)
  with Cons show ?case by simp
qed

lemma py_dict_Inr_length:
  "py_dict items d = Inr cfg \<Longrightarrow> \<forall>item\<in>set items. length item = 2"
  using py_dict_bad [of items d] by auto

lemma fold_update_distinct:
  "distinct (map fst d) \<Longrightarrow>
   distinct (map fst (fold (\<lambda>item. AList.update (item ! 0) (item ! 1)) items d))"
  by (induction items arbitrary: d) (simp_all add: distinct_update)

lemma fold_update_map_of:
  "map_of (fold (\<lambda>item. AList.update (item ! 0) (item ! 1)) items d) =
   map_of d ++ map_of (rev (map (\<lambda>item. (item ! 0, item ! 1)) items))"
proof (induction items arbitrary: d)
  case Nil
  then show ?case by simp
next
  case (Cons item items)
  have "map_of (AList.update (item ! 0) (item ! 1) d) = map_of d ++ [item ! 0 \<mapsto> item ! 1]"
    by (simp add: update_conv')
  with Cons show ?case
    by (simp add: map_add_assoc del: map_add_upd)
qed


lemma fold_update_keys:
  "fst ` set (fold (\<lambda>item. AList.update (item ! 0) (item ! 1)) items d) =
   fst ` set d \<union> (\<lambda>item. item ! 0) ` set items"
proof -
  have "dom (map_of (fold (\<lambda>item. AList.update (item ! 0) (item ! 1)) items d)) =
        dom (map_of d) \<union> dom (map_of (rev (map (\<lambda>item. (item ! 0, item ! 1)) items)))"
    by (simp only: fold_update_map_of dom_map_add Un_commute)
  then show ?thesis
    by (simp add: dom_map_of_conv_image_fst image_image)
qed

lemmas str_defs = config_of_def parse_string_def splitstrip_def strip_def isspace_def
  no_sep_def newline_def rules_of_def

subsection \<open>The two encodings\<close>

text \<open>
  Claim C4. The multi-line string \<^verbatim>\<open>a/*.py:R1,R2\nb/*.py:R3\<close> and the flat string
  \<^verbatim>\<open>a/*.py:R1,R2,b/*.py:R3\<close> give the same dict of entries, pattern \<^verbatim>\<open>a/*.py\<close> with the
  rules R1 and R2 and pattern \<^verbatim>\<open>b/*.py\<close> with the rule R3.
\<close>

theorem encodings_equivalent:
  "config_of ''a/*.py:R1,R2\<newline>b/*.py:R3'' = config_of ''a/*.py:R1,R2,b/*.py:R3'' \<and>
   config_of ''a/*.py:R1,R2,b/*.py:R3'' = Inr [(''a/*.py'', ''R1,R2''), (''b/*.py'', ''R3'')] \<and>
   map (\<lambda>(pattern, rules_str). (pattern, rules_of rules_str))
     [(''a/*.py'', ''R1,R2''), (''b/*.py'', ''R3'')] =
   [(''a/*.py'', [''R1'', ''R2'']), (''b/*.py'', [''R3''])]"
  by (simp add: str_defs)

subsection \<open>Lines without a separator\<close>

text \<open>
  Claim C6. When a line of the option holds no colon, loading fails with \<^verbatim>\<open>ValueError\<close>
  (the configuration error), and no class has been touched: the dict is built before the
  first entry is installed.
\<close>

theorem missing_separator_fails:
  assumes "line \<in> set (parse_string (per_file_ignores (h r)))"
    and "CHR '':'' \<notin> set line"
  shows "load_configuration env h r tbl = (Some ValueError, tbl)"
proof -
  from assms(2) have "length (split CHR '':'' line) \<noteq> 2"
    by (simp add: split_no_sep)
  with assms(1) have "\<exists>item\<in>set (map (split CHR '':'') (parse_string (per_file_ignores (h r)))).
      length item \<noteq> 2"
    by auto
  then have "config_of (per_file_ignores (h r)) = Inl ValueError"
    unfolding config_of_def by (rule py_dict_bad)
  then show ?thesis
    by (simp add: load_configuration_def)
qed

theorem missing_separator_fails_witness:
  "''other'' \<in> set (parse_string ''tests/*:W0611\<newline>other'') \<and>
   CHR '':'' \<notin> set ''other'' \<and>
   load_configuration example_env (\<lambda>r. example_linter ''tests/*:W0611\<newline>other'' None)
     0 (\<lambda>c. []) = (Some ValueError, \<lambda>c. [])"
proof -
  let ?h = "\<lambda>r::nat. example_linter ''tests/*:W0611\<newline>other'' None"
  have a: "''other'' \<in> set (parse_string (per_file_ignores (?h 0)))"
    by (simp add: str_defs example_linter_def)
  have b: "CHR '':'' \<notin> set ''other''"
    by simp
  from a have "''other'' \<in> set (parse_string ''tests/*:W0611\<newline>other'')"
    by (simp add: example_linter_def)
  with b missing_separator_fails [where env = example_env and tbl = "\<lambda>c. []", OF a b] show ?thesis
    by blast
qed

subsection \<open>Lines with more than one separator\<close>

text \<open>
  Claim C5 says that a line is split once, so that a line with several colons is parsed
  with its first colon as the separator. The module calls \<^verbatim>\<open>split(":")\<close> without a limit:
  the line \<^verbatim>\<open>C:/x.py:R1\<close> gives three parts, which \<^verbatim>\<open>dict\<close> refuses.
\<close>

theorem more_than_one_colon_counterexample:
  "CHR '':'' \<in> set ''C:/x.py:R1'' \<and>
   parse_string ''C:/x.py:R1'' = [''C:/x.py:R1''] \<and>
   split CHR '':'' ''C:/x.py:R1'' = [''C'', ''/x.py'', ''R1''] \<and>
   config_of ''C:/x.py:R1'' = Inl ValueError"
  by (simp add: str_defs)

text \<open>
  Claim C5, amended. A line with exactly one colon is split at it into the pattern and
  the rule list; when every line has exactly one colon the dict is built and holds the
  pattern as a key; a line with more than one colon makes the construction of the dict
  fail with \<^verbatim>\<open>ValueError\<close>.
\<close>

theorem line_with_one_colon_is_split:
  assumes "line \<in> set (parse_string s)"
  shows "(length (filter (\<lambda>c. c = CHR '':'') line) = 1 \<longrightarrow>
           split CHR '':'' line =
             [takeWhile (\<lambda>c. c \<noteq> CHR '':'') line, tl (dropWhile (\<lambda>c. c \<noteq> CHR '':'') line)]) \<and>
         ((\<forall>l\<in>set (parse_string s). length (filter (\<lambda>c. c = CHR '':'') l) = 1) \<longrightarrow>
           (\<exists>cfg. config_of s = Inr cfg \<and>
              takeWhile (\<lambda>c. c \<noteq> CHR '':'') line \<in> fst ` set cfg)) \<and>
         (1 < length (filter (\<lambda>c. c = CHR '':'') line) \<longrightarrow> config_of s = Inl ValueError)"
proof (intro conjI impI)
  assume "length (filter (\<lambda>c. c = CHR '':'') line) = 1"
  then show "split CHR '':'' line =
      [takeWhile (\<lambda>c. c \<noteq> CHR '':'') line, tl (dropWhile (\<lambda>c. c \<noteq> CHR '':'') line)]"
    by (rule split_one)
next
  assume all: "\<forall>l\<in>set (parse_string s). length (filter (\<lambda>c. c = CHR '':'') l) = 1"
  let ?items = "map (split CHR '':'') (parse_string s)"
  let ?cfg = "fold (\<lambda>item. AList.update (item ! 0) (item ! 1)) ?items []"
  from all have "\<forall>item\<in>set ?items. length item = 2"
    by (simp add: split_length)
  then have cfg: "config_of s = Inr ?cfg"
    unfolding config_of_def by (rule py_dict_ok)
  from all assms have "split CHR '':'' line ! 0 = takeWhile (\<lambda>c. c \<noteq> CHR '':'') line"
    by (simp add: split_one)
  with assms have "takeWhile (\<lambda>c. c \<noteq> CHR '':'') line \<in> (\<lambda>item. item ! 0) ` set ?items"
    by force
  then have "takeWhile (\<lambda>c. c \<noteq> CHR '':'') line \<in> fst ` set ?cfg"
    by (simp only: fold_update_keys) simp
  with cfg show "\<exists>cfg. config_of s = Inr cfg \<and>
      takeWhile (\<lambda>c. c \<noteq> CHR '':'') line \<in> fst ` set cfg"
    by blast
next
  assume "1 < length (filter (\<lambda>c. c = CHR '':'') line)"
  then have "length (split CHR '':'' line) \<noteq> 2"
    by (simp add: split_length)
  with assms have "\<exists>item\<in>set (map (split CHR '':'') (parse_string s)). length item \<noteq> 2"
    by auto
  then show "config_of s = Inl ValueError"
    unfolding config_of_def by (rule py_dict_bad)
qed

theorem line_with_one_colon_is_split_witness:
  "''tests/*:W0611,C0301'' \<in> set (parse_string ''tests/*:W0611,C0301'') \<and>
   length (filter (\<lambda>c. c = CHR '':'') ''tests/*:W0611,C0301'') = 1 \<and>
   split CHR '':'' ''tests/*:W0611,C0301'' = [''tests/*'', ''W0611,C0301''] \<and>
   (\<exists>cfg. config_of ''tests/*:W0611,C0301'' = Inr cfg \<and> ''tests/*'' \<in> fst ` set cfg) \<and>
   ''C:/x.py:R1'' \<in> set (parse_string ''C:/x.py:R1'') \<and>
   1 < length (filter (\<lambda>c. c = CHR '':'') ''C:/x.py:R1'') \<and>
   config_of ''C:/x.py:R1'' = Inl ValueError"
proof -
  have a: "''tests/*:W0611,C0301'' \<in> set (parse_string ''tests/*:W0611,C0301'')"
    by (simp add: str_defs)
  have b: "''C:/x.py:R1'' \<in> set (parse_string ''C:/x.py:R1'')"
    by (simp add: str_defs)
  have c: "parse_string ''tests/*:W0611,C0301'' = [''tests/*:W0611,C0301'']"
    by (simp add: str_defs)
  show ?thesis
    using line_with_one_colon_is_split [OF a] line_with_one_colon_is_split [OF b] a b
    by (simp add: c)
qed


section \<open>The wrapper\<close>

text \<open>The definitions that are unfolded to run the module on the example registry.\<close>

lemmas ex_defs = example_linter_def example_env_def example_store_def imports_checker_def
  format_checker_def files_of_def augment_add_message_def get_message_definitions_def
  get_checker_by_msg_def declares_def checker_eq_def load_configuration_def

subsection \<open>One layer\<close>

lemma add_message_known:
  assumes "current_file (h (ppfi_linter w)) = Some F" and "F \<noteq> []"
    and "1 < length args" and "args ! 1 = PyStr R"
    and "msgs_store (h (ppfi_linter w)) R = Some defs"
  shows "add_message env h w f args kw =
    (if absolute env F \<in> set (ppfi_files w) \<and> (\<exists>d\<in>set defs. d \<in> set (ppfi_messages w))
     then Dropped else f args kw)"
  using assms by (simp add: add_message_def get_message_definitions_def list_ex_iff)

text \<open>
  Claim C1. An emission of the rule \<open>R\<close> while the captured linter analyses the file \<open>F\<close>
  is dropped exactly when the absolute path of \<open>F\<close> is one of the captured files and one of
  the definitions that the message store gives for \<open>R\<close> is one of the captured definitions;
  in every other case the wrapper returns what the wrapped method returns on the same
  positional and keyword arguments. The store is consulted only when the file is captured.
\<close>

theorem wrapper_drops_or_forwards:
  assumes "current_file (h (ppfi_linter w)) = Some F" and "F \<noteq> []"
    and "absolute env F \<in> set (ppfi_files w) \<longrightarrow>
      1 < length args \<and> args ! 1 = PyStr R \<and> msgs_store (h (ppfi_linter w)) R = Some defs"
  shows "add_message env h w ppfi_func args kw =
    (if absolute env F \<in> set (ppfi_files w) \<and> (\<exists>d\<in>set defs. d \<in> set (ppfi_messages w))
     then Dropped else ppfi_func args kw)"
  using assms by (auto simp: add_message_def get_message_definitions_def list_ex_iff)

theorem wrapper_drops_or_forwards_witness:
  "add_message example_env (\<lambda>r. example_linter [] (Some ''tests/a.py''))
     \<lparr>ppfi_linter = 0, ppfi_files = [''/w/tests/a.py''],
        ppfi_messages = [\<lparr>msgid = ''W0611'', symbol = ''unused-import''\<rparr>]\<rparr>
     Emitted [PyObj 1, PyStr ''unused-import'', PyInt 3] [(''node'', PyNone)] = Dropped \<and>
   add_message example_env (\<lambda>r. example_linter [] (Some ''tests/a.py''))
     \<lparr>ppfi_linter = 0, ppfi_files = [''/w/tests/a.py''],
        ppfi_messages = [\<lparr>msgid = ''W0611'', symbol = ''unused-import''\<rparr>]\<rparr>
     Emitted [PyObj 1, PyStr ''C0301'', PyInt 3] [(''node'', PyNone)] =
     Emitted [PyObj 1, PyStr ''C0301'', PyInt 3] [(''node'', PyNone)] \<and>
   add_message example_env (\<lambda>r. example_linter [] (Some ''other/c.py''))
     \<lparr>ppfi_linter = 0, ppfi_files = [''/w/tests/a.py''],
        ppfi_messages = [\<lparr>msgid = ''W0611'', symbol = ''unused-import''\<rparr>]\<rparr>
     Emitted [PyObj 1] [] = Emitted [PyObj 1] []"
proof -
  let ?w = "\<lparr>ppfi_linter = 0, ppfi_files = [''/w/tests/a.py''],
        ppfi_messages = [\<lparr>msgid = ''W0611'', symbol = ''unused-import''\<rparr>]\<rparr>"
  let ?h = "\<lambda>r::nat. example_linter [] (Some ''tests/a.py'')"
  let ?h' = "\<lambda>r::nat. example_linter [] (Some ''other/c.py'')"
  let ?kw = "[(''node'', PyNone)]"
  have a: "current_file (?h (ppfi_linter ?w)) = Some ''tests/a.py''"
    by (simp add: example_linter_def)
  have a': "current_file (?h' (ppfi_linter ?w)) = Some ''other/c.py''"
    by (simp add: example_linter_def)
  have b: "''tests/a.py'' \<noteq> []" "''other/c.py'' \<noteq> []"
    by simp_all
  have c1: "absolute example_env ''tests/a.py'' \<in> set (ppfi_files ?w) \<longrightarrow>
      1 < length [PyObj 1, PyStr ''unused-import'', PyInt 3] \<and>
      [PyObj 1, PyStr ''unused-import'', PyInt 3] ! 1 = PyStr ''unused-import'' \<and>
      msgs_store (?h (ppfi_linter ?w)) ''unused-import'' =
        Some [\<lparr>msgid = ''W0611'', symbol = ''unused-import''\<rparr>]"
    by (simp add: example_linter_def example_store_def)
  have c2: "absolute example_env ''tests/a.py'' \<in> set (ppfi_files ?w) \<longrightarrow>
      1 < length [PyObj 1, PyStr ''C0301'', PyInt 3] \<and>
      [PyObj 1, PyStr ''C0301'', PyInt 3] ! 1 = PyStr ''C0301'' \<and>
      msgs_store (?h (ppfi_linter ?w)) ''C0301'' =
        Some [\<lparr>msgid = ''C0301'', symbol = ''line-too-long''\<rparr>]"
    by (simp add: example_linter_def example_store_def)
  have c3: "absolute example_env ''other/c.py'' \<in> set (ppfi_files ?w) \<longrightarrow>
      1 < length [PyObj 1] \<and> [PyObj 1] ! 1 = PyStr [] \<and>
      msgs_store (?h' (ppfi_linter ?w)) [] = Some []"
    by (simp add: example_env_def)
  show ?thesis
    using wrapper_drops_or_forwards [where ppfi_func = Emitted and kw = ?kw, OF a b(1) c1]
      wrapper_drops_or_forwards [where ppfi_func = Emitted and kw = ?kw, OF a b(1) c2]
      wrapper_drops_or_forwards [where ppfi_func = Emitted and kw = "[]", OF a' b(2) c3]
    by (simp add: example_env_def)
qed

subsection \<open>Errors raised by the wrapper\<close>

text \<open>
  Claim C7 says that the interception never raises. The wrapper asserts that the captured
  linter has a current file, and it looks the message id up in the message store without
  catching the error of the look-up: with no current file the call raises
  \<^verbatim>\<open>AssertionError\<close>, and in a captured file a message id unknown to the store raises
  \<^verbatim>\<open>UnknownMessageError\<close>.
\<close>

theorem interception_raises_counterexample:
  "add_message example_env (\<lambda>r. example_linter [] None)
     \<lparr>ppfi_linter = 0, ppfi_files = [''/w/tests/a.py''],
        ppfi_messages = [\<lparr>msgid = ''W0611'', symbol = ''unused-import''\<rparr>]\<rparr>
     Emitted [PyObj 1, PyStr ''W0611''] [] = Raised AssertionError \<and>
   add_message example_env (\<lambda>r. example_linter [] (Some ''tests/a.py''))
     \<lparr>ppfi_linter = 0, ppfi_files = [''/w/tests/a.py''],
        ppfi_messages = [\<lparr>msgid = ''W0611'', symbol = ''unused-import''\<rparr>]\<rparr>
     Emitted [PyObj 1, PyStr ''X9999''] [] = Raised UnknownMessageError"
  by (simp add: add_message_def get_message_definitions_def example_linter_def
      example_env_def example_store_def)

text \<open>
  Claim C7, amended. When the captured linter has a current file and, in case this file is
  one of the captured files, the second positional argument is a message id known to the
  message store, the wrapper either drops the emission or returns what the wrapped method
  returns; in every other case it raises.
\<close>

theorem interception_raises_without_file_or_definition:
  "((\<exists>F. current_file (h (ppfi_linter w)) = Some F \<and> F \<noteq> [] \<and>
        (absolute env F \<in> set (ppfi_files w) \<longrightarrow>
           1 < length args \<and>
           (\<exists>R defs. args ! 1 = PyStr R \<and> msgs_store (h (ppfi_linter w)) R = Some defs))) \<longrightarrow>
      add_message env h w ppfi_func args kw = Dropped \<or>
      add_message env h w ppfi_func args kw = ppfi_func args kw) \<and>
   (\<not> (\<exists>F. current_file (h (ppfi_linter w)) = Some F \<and> F \<noteq> [] \<and>
        (absolute env F \<in> set (ppfi_files w) \<longrightarrow>
           1 < length args \<and>
           (\<exists>R defs. args ! 1 = PyStr R \<and> msgs_store (h (ppfi_linter w)) R = Some defs))) \<longrightarrow>
      (\<exists>e. add_message env h w ppfi_func args kw = Raised e))"
  by (auto simp: add_message_def get_message_definitions_def
      split: option.splits pyval.splits sum.splits)

theorem interception_raises_without_file_or_definition_witness:
  "current_file (example_linter [] (Some ''tests/a.py'')) = Some ''tests/a.py'' \<and>
   (add_message example_env (\<lambda>r. example_linter [] (Some ''tests/a.py''))
      \<lparr>ppfi_linter = 0, ppfi_files = [''/w/tests/a.py''],
         ppfi_messages = [\<lparr>msgid = ''W0611'', symbol = ''unused-import''\<rparr>]\<rparr>
      Emitted [PyObj 1, PyStr ''W0401''] [] = Dropped \<or>
    add_message example_env (\<lambda>r. example_linter [] (Some ''tests/a.py''))
      \<lparr>ppfi_linter = 0, ppfi_files = [''/w/tests/a.py''],
         ppfi_messages = [\<lparr>msgid = ''W0611'', symbol = ''unused-import''\<rparr>]\<rparr>
      Emitted [PyObj 1, PyStr ''W0401''] [] = Emitted [PyObj 1, PyStr ''W0401''] []) \<and>
   current_file (example_linter [] None) = None \<and>
   (\<exists>e. add_message example_env (\<lambda>r. example_linter [] None)
      \<lparr>ppfi_linter = 0, ppfi_files = [''/w/tests/a.py''],
         ppfi_messages = [\<lparr>msgid = ''W0611'', symbol = ''unused-import''\<rparr>]\<rparr>
      Emitted [PyObj 1, PyStr ''W0401''] [] = Raised e)"
proof -
  let ?w = "\<lparr>ppfi_linter = 0, ppfi_files = [''/w/tests/a.py''],
        ppfi_messages = [\<lparr>msgid = ''W0611'', symbol = ''unused-import''\<rparr>]\<rparr>"
  let ?h = "\<lambda>r::nat. example_linter [] (Some ''tests/a.py'')"
  let ?hn = "\<lambda>r::nat. example_linter [] None"
  have a: "\<exists>F. current_file (?h (ppfi_linter ?w)) = Some F \<and> F \<noteq> [] \<and>
        (absolute example_env F \<in> set (ppfi_files ?w) \<longrightarrow>
           1 < length [PyObj 1, PyStr ''W0401''] \<and>
           (\<exists>R defs. [PyObj 1, PyStr ''W0401''] ! 1 = PyStr R \<and>
              msgs_store (?h (ppfi_linter ?w)) R = Some defs))"
    by (simp add: example_linter_def example_store_def)
  have b: "\<not> (\<exists>F. current_file (?hn (ppfi_linter ?w)) = Some F \<and> F \<noteq> [] \<and>
        (absolute example_env F \<in> set (ppfi_files ?w) \<longrightarrow>
           1 < length [PyObj 1, PyStr ''W0401''] \<and>
           (\<exists>R defs. [PyObj 1, PyStr ''W0401''] ! 1 = PyStr R \<and>
              msgs_store (?hn (ppfi_linter ?w)) R = Some defs)))"
    by (simp add: example_linter_def)
  have c: "current_file (example_linter [] (Some ''tests/a.py'')) = Some ''tests/a.py''"
    "current_file (example_linter [] None) = None"
    by (simp_all add: example_linter_def)
  from interception_raises_without_file_or_definition
      [where h = ?h and w = ?w and env = example_env and args = "[PyObj 1, PyStr ''W0401'']"
        and ppfi_func = Emitted and kw = "[]"] a
  have 1: "add_message example_env ?h ?w Emitted [PyObj 1, PyStr ''W0401''] [] = Dropped \<or>
      add_message example_env ?h ?w Emitted [PyObj 1, PyStr ''W0401''] [] =
        Emitted [PyObj 1, PyStr ''W0401''] []"
    by blast
  from interception_raises_without_file_or_definition
      [where h = ?hn and w = ?w and env = example_env and args = "[PyObj 1, PyStr ''W0401'']"
        and ppfi_func = Emitted and kw = "[]"] b
  have 2: "\<exists>e. add_message example_env ?hn ?w Emitted [PyObj 1, PyStr ''W0401''] [] = Raised e"
    by blast
  from 1 2 c show ?thesis by blast
qed

subsection \<open>What the decision depends on\<close>



subsection \<open>Chains of wrappers\<close>


lemma call_chain_append_known:
  assumes "\<forall>w\<in>set new. ppfi_linter w = r"
    and "current_file (h r) = Some F" and "F \<noteq> []"
    and "1 < length args" and "args ! 1 = PyStr R"
    and "msgs_store (h r) R = Some defs"
  shows "call_chain env h (new @ old) args kw =
    (if \<exists>w\<in>set new. absolute env F \<in> set (ppfi_files w) \<and>
          (\<exists>d\<in>set defs. d \<in> set (ppfi_messages w))
     then Dropped else call_chain env h old args kw)"
  using assms(1)
proof (induction new)
  case Nil
  then show ?case by simp
next
  case (Cons w new)
  then have lw: "ppfi_linter w = r" by simp
  have "add_message env h w (call_chain env h (new @ old)) args kw =
    (if absolute env F \<in> set (ppfi_files w) \<and> (\<exists>d\<in>set defs. d \<in> set (ppfi_messages w))
     then Dropped else call_chain env h (new @ old) args kw)"
    using add_message_known [where h = h and w = w and F = F and args = args and R = R
        and defs = defs and env = env and f = "call_chain env h (new @ old)" and kw = kw]
      assms(2-6) lw
    by simp
  moreover from Cons have "call_chain env h (new @ old) args kw =
    (if \<exists>w\<in>set new. absolute env F \<in> set (ppfi_files w) \<and>
          (\<exists>d\<in>set defs. d \<in> set (ppfi_messages w))
     then Dropped else call_chain env h old args kw)"
    by simp
  ultimately show ?case by auto
qed

lemma add_message_no_files:
  "ppfi_files w = [] \<Longrightarrow> add_message env h w f args kw = Dropped \<Longrightarrow> f args kw = Dropped"
  by (auto simp: add_message_def split: option.splits if_splits)

lemma call_chain_no_files:
  "\<forall>w\<in>set new. ppfi_files w = [] \<Longrightarrow>
   call_chain env h (new @ old) args kw = Dropped \<Longrightarrow> call_chain env h old args kw = Dropped"
proof (induction new)
  case Nil
  then show ?case by simp
next
  case (Cons w new)
  from Cons.prems have "call_chain env h (new @ old) args kw = Dropped"
    by (auto dest: add_message_no_files)
  with Cons show ?case by simp
qed

lemma add_message_drop_mono:
  "add_message env h w f args kw = Dropped \<Longrightarrow>
   (f args kw = Dropped \<Longrightarrow> f' args kw = Dropped) \<Longrightarrow>
   add_message env h w f' args kw = Dropped"
  by (auto simp: add_message_def split: option.splits if_splits sum.splits)

lemma call_chain_drop_mono:
  "\<forall>w\<in>set new. ppfi_files w = [] \<Longrightarrow>
   call_chain env h (a @ new @ b) args kw = Dropped \<Longrightarrow>
   call_chain env h (a @ b) args kw = Dropped"
proof (induction a)
  case Nil
  then show ?case by (auto dest: call_chain_no_files)
next
  case (Cons w a)
  from Cons.prems(2) have "add_message env h w (call_chain env h (a @ new @ b)) args kw = Dropped"
    by simp
  then have "add_message env h w (call_chain env h (a @ b)) args kw = Dropped"
    by (rule add_message_drop_mono) (rule Cons.IH [OF Cons.prems(1)])
  then show ?case by simp
qed

section \<open>Installing the entries\<close>

subsection \<open>Resolving the rules of an entry\<close>

lemma find_Some_ex: "(\<exists>c. List.find P xs = Some c) \<longleftrightarrow> (\<exists>x\<in>set xs. P x)"
  by (induction xs) auto

lemma get_checker_by_msg_ok_iff:
  "(\<exists>c. get_checker_by_msg l rule = Inr c) \<longleftrightarrow> (\<exists>c\<in>set (get_checkers l). declares rule c)"
  using find_Some_ex [of "declares rule" "get_checkers l"]
  by (auto simp: get_checker_by_msg_def split: option.splits)

lemma get_message_definitions_ok_iff:
  "(\<exists>defs. get_message_definitions l (PyStr rule) = Inr defs) \<longleftrightarrow> msgs_store l rule \<noteq> None"
  by (auto simp: get_message_definitions_def split: option.splits)

lemma resolve_rules_error:
  "resolve_rules l rules g = Inl e \<Longrightarrow> e = UnknownMessageError"
  by (induction rules arbitrary: g)
    (auto simp: get_message_definitions_def get_checker_by_msg_def
      split: sum.splits option.splits)

lemma resolve_rules_ok_iff:
  "(\<exists>g'. resolve_rules l rules g = Inr g') \<longleftrightarrow>
   (\<forall>rule\<in>set rules. msgs_store l rule \<noteq> None \<and> (\<exists>c\<in>set (get_checkers l). declares rule c))"
proof (induction rules arbitrary: g)
  case Nil
  then show ?case by simp
next
  case (Cons rule rules)
  show ?case
  proof (cases "get_message_definitions l (PyStr rule)")
    case (Inl e)
    with get_message_definitions_ok_iff [of l rule] show ?thesis by auto
  next
    case defs: (Inr defs)
    with get_message_definitions_ok_iff [of l rule] have m: "msgs_store l rule \<noteq> None" by auto
    show ?thesis
    proof (cases "get_checker_by_msg l rule")
      case (Inl e)
      with get_checker_by_msg_ok_iff [of l rule] defs show ?thesis by auto
    next
      case (Inr c)
      with get_checker_by_msg_ok_iff [of l rule]
      have "\<exists>c\<in>set (get_checkers l). declares rule c" by auto
      with Inr defs m Cons.IH [of "extend_group c defs g"] show ?thesis by simp
    qed
  qed
qed

subsection \<open>The class table\<close>

lemma install_chain:
  "install r files g tbl c =
   rev (map (\<lambda>(k, m). \<lparr>ppfi_linter = r, ppfi_files = files, ppfi_messages = m\<rparr>)
     (filter (\<lambda>(k, m). cls k = c) g)) @ tbl c"
  by (induction g arbitrary: tbl) auto


lemma load_entries_append:
  "load_entries env h r (xs @ ys) tbl =
   (case load_entries env h r xs tbl of
      (None, t) \<Rightarrow> load_entries env h r ys t
    | (Some e, t) \<Rightarrow> (Some e, t))"
  by (induction xs arbitrary: tbl) (auto split: sum.splits)

lemma load_entries_shift:
  "load_entries env h r cfg t = (None, T) \<Longrightarrow>
   \<exists>new. (\<forall>c. T c = new c @ t c) \<and>
     (\<forall>t'. load_entries env h r cfg t' = (None, \<lambda>c. new c @ t' c))"
proof (induction cfg arbitrary: t)
  case Nil
  then show ?case
    by (intro exI [of _ "\<lambda>c. []"]) simp
next
  case (Cons e cfg)
  obtain p0 rs0 where e: "e = (p0, rs0)" by (cases e)
  from Cons.prems obtain g where
    g: "resolve_rules (h r) (rules_of rs0) [] = Inr g" and
    rest: "load_entries env h r cfg (install r (files_of env p0) g t) = (None, T)"
    by (auto simp: e augment_add_message_def split: sum.splits)
  let ?n0 = "\<lambda>c. rev (map (\<lambda>(k, m). \<lparr>ppfi_linter = r, ppfi_files = files_of env p0,
      ppfi_messages = m\<rparr>) (filter (\<lambda>(k, m). cls k = c) g))"
  have inst: "install r (files_of env p0) g t' = (\<lambda>c. ?n0 c @ t' c)" for t'
    by (rule ext) (rule install_chain)
  from Cons.IH [OF rest] obtain new where
    n1: "\<forall>c. T c = new c @ install r (files_of env p0) g t c" and
    n2: "\<forall>t'. load_entries env h r cfg t' = (None, \<lambda>c. new c @ t' c)"
    by blast
  show ?case
    using n1 n2 g
    by (intro exI [of _ "\<lambda>c. new c @ ?n0 c"]) (simp add: e augment_add_message_def inst)
qed

lemma entries_cons_set:
  assumes "resolve_rules (h r) (rules_of rs0) [] = Inr g"
  shows "{\<lparr>ppfi_linter = r, ppfi_files = files_of env p, ppfi_messages = m\<rparr> | p rs g k m.
        (p, rs) \<in> set ((p0, rs0) # cfg) \<and> resolve_rules (h r) (rules_of rs) [] = Inr g \<and>
        (k, m) \<in> set g \<and> cls k = c} =
      {\<lparr>ppfi_linter = r, ppfi_files = files_of env p0, ppfi_messages = m\<rparr> | k m.
         (k, m) \<in> set g \<and> cls k = c} \<union>
      {\<lparr>ppfi_linter = r, ppfi_files = files_of env p, ppfi_messages = m\<rparr> | p rs g k m.
        (p, rs) \<in> set cfg \<and> resolve_rules (h r) (rules_of rs) [] = Inr g \<and>
        (k, m) \<in> set g \<and> cls k = c}"
    (is "?L = ?A \<union> ?B")
proof (intro set_eqI iffI)
  fix x assume "x \<in> ?L"
  then obtain p rs g' k m where x: "x = \<lparr>ppfi_linter = r, ppfi_files = files_of env p, ppfi_messages = m\<rparr>"
    and mem: "(p, rs) \<in> set ((p0, rs0) # cfg)" and g': "resolve_rules (h r) (rules_of rs) [] = Inr g'"
    and km: "(k, m) \<in> set g'" "cls k = c"
    by blast
  show "x \<in> ?A \<union> ?B"
  proof (cases "(p, rs) = (p0, rs0)")
    case True
    with assms g' have "g' = g" by simp
    with True x km have "x \<in> ?A" by blast
    then show ?thesis by simp
  next
    case False
    with mem have "(p, rs) \<in> set cfg" by auto
    with x g' km have "x \<in> ?B" by blast
    then show ?thesis by simp
  qed
next
  fix x assume "x \<in> ?A \<union> ?B"
  then show "x \<in> ?L"
  proof
    assume "x \<in> ?A"
    then obtain k m where "x = \<lparr>ppfi_linter = r, ppfi_files = files_of env p0, ppfi_messages = m\<rparr>"
      "(k, m) \<in> set g" "cls k = c" by blast
    moreover have "(p0, rs0) \<in> set ((p0, rs0) # cfg)" by simp
    ultimately show ?thesis using assms by blast
  next
    assume "x \<in> ?B"
    then obtain p rs g' k m where "x = \<lparr>ppfi_linter = r, ppfi_files = files_of env p, ppfi_messages = m\<rparr>"
      "(p, rs) \<in> set cfg" "resolve_rules (h r) (rules_of rs) [] = Inr g'"
      "(k, m) \<in> set g'" "cls k = c" by blast
    moreover from this have "(p, rs) \<in> set ((p0, rs0) # cfg)" by simp
    ultimately show ?thesis by blast
  qed
qed

lemma load_entries_new:
  "load_entries env h r cfg tbl = (None, tbl') \<Longrightarrow>
   \<exists>new. tbl' c = new @ tbl c \<and> set new =
     {\<lparr>ppfi_linter = r, ppfi_files = files_of env p, ppfi_messages = m\<rparr> | p rs g k m.
        (p, rs) \<in> set cfg \<and> resolve_rules (h r) (rules_of rs) [] = Inr g \<and>
        (k, m) \<in> set g \<and> cls k = c}"
proof (induction cfg arbitrary: tbl)
  case Nil
  then show ?case by simp
next
  case (Cons e cfg)
  obtain p0 rs0 where e: "e = (p0, rs0)" by (cases e)
  from Cons.prems obtain g where
    g: "resolve_rules (h r) (rules_of rs0) [] = Inr g" and
    rest: "load_entries env h r cfg (install r (files_of env p0) g tbl) = (None, tbl')"
    by (auto simp: e augment_add_message_def split: sum.splits)
  let ?n0 = "rev (map (\<lambda>(k, m). \<lparr>ppfi_linter = r, ppfi_files = files_of env p0,
      ppfi_messages = m\<rparr>) (filter (\<lambda>(k, m). cls k = c) g))"
  have a: "set ?n0 =
      {\<lparr>ppfi_linter = r, ppfi_files = files_of env p0, ppfi_messages = m\<rparr> | k m.
         (k, m) \<in> set g \<and> cls k = c}"
    by auto
  from Cons.IH [OF rest] obtain new where
    n1: "tbl' c = new @ install r (files_of env p0) g tbl c" and
    n2: "set new =
     {\<lparr>ppfi_linter = r, ppfi_files = files_of env p, ppfi_messages = m\<rparr> | p rs g k m.
        (p, rs) \<in> set cfg \<and> resolve_rules (h r) (rules_of rs) [] = Inr g \<and>
        (k, m) \<in> set g \<and> cls k = c}"
    by blast
  have "tbl' c = (new @ ?n0) @ tbl c"
    by (simp add: n1 install_chain)
  moreover have "set (new @ ?n0) =
     {\<lparr>ppfi_linter = r, ppfi_files = files_of env p, ppfi_messages = m\<rparr> | p rs g k m.
        (p, rs) \<in> set (e # cfg) \<and> resolve_rules (h r) (rules_of rs) [] = Inr g \<and>
        (k, m) \<in> set g \<and> cls k = c}"
    unfolding e entries_cons_set [where h = h and r = r and env = env and cfg = cfg
        and c = c and ?p0.0 = p0, OF g] set_append n2 a
    by (simp only: Un_commute)
  ultimately show ?case by blast
qed

lemma load_entries_fails:
  assumes "(p, rs) \<in> set cfg" and "rule \<in> set (rules_of rs)"
    and "msgs_store (h r) rule = None \<or> (\<forall>c\<in>set (get_checkers (h r)). \<not> declares rule c)"
  shows "\<exists>pre e post tbl1. cfg = pre @ e # post \<and>
    load_entries env h r pre tbl = (None, tbl1) \<and>
    augment_add_message h r (rules_of (snd e)) (files_of env (fst e)) tbl1 =
      Inl UnknownMessageError \<and>
    load_entries env h r cfg tbl = (Some UnknownMessageError, tbl1)"
  using assms(1)
proof (induction cfg arbitrary: tbl)
  case Nil
  then show ?case by simp
next
  case (Cons e0 cfg)
  obtain p0 rs0 where e0: "e0 = (p0, rs0)" by (cases e0)
  show ?case
  proof (cases "augment_add_message h r (rules_of rs0) (files_of env p0) tbl")
    case (Inl e)
    then have "e = UnknownMessageError"
      by (auto simp: augment_add_message_def split: sum.splits dest: resolve_rules_error)
    with Inl have "e0 # cfg = [] @ e0 # cfg \<and>
        load_entries env h r [] tbl = (None, tbl) \<and>
        augment_add_message h r (rules_of (snd e0)) (files_of env (fst e0)) tbl =
          Inl UnknownMessageError \<and>
        load_entries env h r (e0 # cfg) tbl = (Some UnknownMessageError, tbl)"
      by (simp add: e0)
    then show ?thesis by blast
  next
    case (Inr tbl0)
    then have "\<exists>g. resolve_rules (h r) (rules_of rs0) [] = Inr g"
      by (auto simp: augment_add_message_def split: sum.splits)
    then have "\<forall>rule\<in>set (rules_of rs0). msgs_store (h r) rule \<noteq> None \<and>
        (\<exists>c\<in>set (get_checkers (h r)). declares rule c)"
      by (simp only: resolve_rules_ok_iff)
    with assms(2,3) have "(p, rs) \<noteq> (p0, rs0)" by auto
    with Cons.prems have "(p, rs) \<in> set cfg" by (auto simp: e0)
    from Cons.IH [OF this, of tbl0] obtain pre e post tbl1 where
      "cfg = pre @ e # post" "load_entries env h r pre tbl0 = (None, tbl1)"
      "augment_add_message h r (rules_of (snd e)) (files_of env (fst e)) tbl1 =
        Inl UnknownMessageError"
      "load_entries env h r cfg tbl0 = (Some UnknownMessageError, tbl1)"
      by blast
    with Inr have "e0 # cfg = (e0 # pre) @ e # post \<and>
        load_entries env h r (e0 # pre) tbl = (None, tbl1) \<and>
        augment_add_message h r (rules_of (snd e)) (files_of env (fst e)) tbl1 =
          Inl UnknownMessageError \<and>
        load_entries env h r (e0 # cfg) tbl = (Some UnknownMessageError, tbl1)"
      by (simp add: e0)
    then show ?thesis by blast
  qed
qed

lemma config_of_Inr:
  assumes "config_of s = Inr cfg"
  shows "distinct (map fst cfg) \<and>
         map_of cfg =
           map_of (rev (map (\<lambda>line. (split CHR '':'' line ! 0, split CHR '':'' line ! 1))
             (parse_string s)))"
proof -
  let ?items = "map (split CHR '':'') (parse_string s)"
  from assms have "\<forall>item\<in>set ?items. length item = 2"
    unfolding config_of_def by (rule py_dict_Inr_length)
  then have "py_dict ?items [] = Inr (fold (\<lambda>item. AList.update (item ! 0) (item ! 1)) ?items [])"
    by (rule py_dict_ok)
  with assms have cfg: "cfg = fold (\<lambda>item. AList.update (item ! 0) (item ! 1)) ?items []"
    by (simp add: config_of_def)
  have "distinct (map fst cfg)"
    unfolding cfg by (rule fold_update_distinct) simp
  moreover have "map_of cfg =
      map_of (rev (map (\<lambda>line. (split CHR '':'' line ! 0, split CHR '':'' line ! 1))
        (parse_string s)))"
    unfolding cfg fold_update_map_of by (simp add: comp_def)
  ultimately show ?thesis by blast
qed

subsection \<open>Several entries for one checker\<close>




subsection \<open>An entry with an unknown rule\<close>

text \<open>
  Claim C3 says that a failed load leaves no wrapper installed. The entries are installed
  one after the other and nothing is undone: with \<^verbatim>\<open>tests/*:W0611\<close> followed by
  \<^verbatim>\<open>other/*:BAD\<close> the load fails with \<^verbatim>\<open>UnknownMessageError\<close> while the wrapper of the first
  entry stays on the imports checker, where it still drops \<^verbatim>\<open>W0611\<close> in \<^verbatim>\<open>tests/a.py\<close>.
\<close>

theorem wrapper_left_after_failure_counterexample:
  "load_configuration example_env
     (\<lambda>r. example_linter ''tests/*:W0611\<newline>other/*:BAD'' None) 0 (\<lambda>c. []) =
   (Some UnknownMessageError,
    (\<lambda>c. [])
    (''ImportsChecker'' :=
       [\<lparr>ppfi_linter = 0, ppfi_files = [''/w/tests/a.py''],
          ppfi_messages = [\<lparr>msgid = ''W0611'', symbol = ''unused-import''\<rparr>]\<rparr>])) \<and>
   call_chain example_env
     (\<lambda>r. example_linter ''tests/*:W0611\<newline>other/*:BAD'' (Some ''tests/a.py''))
     [\<lparr>ppfi_linter = 0, ppfi_files = [''/w/tests/a.py''],
         ppfi_messages = [\<lparr>msgid = ''W0611'', symbol = ''unused-import''\<rparr>]\<rparr>]
     [PyObj 1, PyStr ''W0611''] [] = Dropped"
  by (simp add: str_defs ex_defs add_message_def)

text \<open>
  Claim C3, amended. When an entry of the dict has a rule that the message store does not
  know or that no checker declares, loading fails with \<^verbatim>\<open>UnknownMessageError\<close> at the first
  such entry: the wrappers of the entries before it have been installed and stay, the
  failing entry and the entries after it install nothing.
\<close>

theorem unknown_rule_fails_after_earlier_entries:
  assumes "config_of (per_file_ignores (h r)) = Inr cfg"
    and "(p, rs) \<in> set cfg" and "rule \<in> set (rules_of rs)"
    and "msgs_store (h r) rule = None \<or> (\<forall>k\<in>set (get_checkers (h r)). \<not> declares rule k)"
  shows "\<exists>pre e post tbl1. cfg = pre @ e # post \<and>
    load_entries env h r pre tbl = (None, tbl1) \<and>
    augment_add_message h r (rules_of (snd e)) (files_of env (fst e)) tbl1 =
      Inl UnknownMessageError \<and>
    load_configuration env h r tbl = (Some UnknownMessageError, tbl1)"
  using load_entries_fails [where h = h and r = r and env = env and tbl = tbl, OF assms(2-4)]
    assms(1)
  by (simp add: load_configuration_def)

theorem unknown_rule_fails_after_earlier_entries_witness:
  "config_of ''tests/*:W0611\<newline>other/*:BAD'' =
     Inr [(''tests/*'', ''W0611''), (''other/*'', ''BAD'')] \<and>
   ''BAD'' \<in> set (rules_of ''BAD'') \<and>
   example_store ''BAD'' = None \<and>
   (\<exists>pre e post tbl1.
      [(''tests/*'', ''W0611''), (''other/*'', ''BAD'')] = pre @ e # post \<and>
      load_entries example_env (\<lambda>r. example_linter ''tests/*:W0611\<newline>other/*:BAD'' None) 0
        pre (\<lambda>c. []) = (None, tbl1) \<and>
      augment_add_message (\<lambda>r. example_linter ''tests/*:W0611\<newline>other/*:BAD'' None) 0
        (rules_of (snd e)) (files_of example_env (fst e)) tbl1 = Inl UnknownMessageError \<and>
      load_configuration example_env
        (\<lambda>r. example_linter ''tests/*:W0611\<newline>other/*:BAD'' None) 0 (\<lambda>c. []) =
        (Some UnknownMessageError, tbl1))"
proof -
  let ?s = "''tests/*:W0611\<newline>other/*:BAD''"
  let ?h = "\<lambda>r::nat. example_linter ?s None"
  have c: "config_of ?s = Inr [(''tests/*'', ''W0611''), (''other/*'', ''BAD'')]"
    by (simp add: str_defs)
  then have a: "config_of (per_file_ignores (?h 0)) =
      Inr [(''tests/*'', ''W0611''), (''other/*'', ''BAD'')]"
    by (simp add: example_linter_def)
  have b: "(''other/*'', ''BAD'') \<in> set [(''tests/*'', ''W0611''), (''other/*'', ''BAD'')]"
    by simp
  have d: "''BAD'' \<in> set (rules_of ''BAD'')"
    by (simp add: str_defs)
  have n: "example_store ''BAD'' = None"
    by (simp add: example_store_def)
  then have e: "msgs_store (?h 0) ''BAD'' = None \<or>
      (\<forall>k\<in>set (get_checkers (?h 0)). \<not> declares ''BAD'' k)"
    by (simp add: example_linter_def)
  from unknown_rule_fails_after_earlier_entries
    [where env = example_env and tbl = "\<lambda>c. []", OF a b d e] c d n
  show ?thesis by blast
qed

subsection \<open>A pattern that matches no file\<close>

text \<open>
  Claim C9. A pattern without a match is no error: an entry whose rules all resolve is
  installed, with the empty list of files. Its wrappers drop nothing: when the whole
  configuration loads, it also loads without this entry, the two class tables differ by
  the wrappers of this entry, which have no file, and every emission that is dropped with
  the entry is dropped without it.
\<close>

theorem zero_match_entry_suppresses_nothing:
  assumes "files_of env pattern = []"
  shows "((\<forall>rule\<in>set (rules_of rules_str). msgs_store (h r) rule \<noteq> None \<and>
             (\<exists>k\<in>set (get_checkers (h r)). declares rule k)) \<longrightarrow>
          (\<exists>t. load_entries env h r [(pattern, rules_str)] tbl = (None, t))) \<and>
         (load_entries env h r (pre @ (pattern, rules_str) # post) tbl = (None, tbl1) \<longrightarrow>
          (\<exists>tbl2 g a b.
             load_entries env h r (pre @ post) tbl = (None, tbl2) \<and>
             resolve_rules (h r) (rules_of rules_str) [] = Inr g \<and>
             tbl1 c =
               a @ rev (map (\<lambda>(k, m). \<lparr>ppfi_linter = r, ppfi_files = [], ppfi_messages = m\<rparr>)
                 (filter (\<lambda>(k, m). cls k = c) g)) @ b \<and>
             tbl2 c = a @ b \<and>
             (call_chain env' h' (tbl1 c) args kw = Dropped \<longrightarrow>
              call_chain env' h' (tbl2 c) args kw = Dropped)))"
proof (intro conjI impI)
  assume "\<forall>rule\<in>set (rules_of rules_str). msgs_store (h r) rule \<noteq> None \<and>
      (\<exists>k\<in>set (get_checkers (h r)). declares rule k)"
  then have "\<exists>g. resolve_rules (h r) (rules_of rules_str) [] = Inr g"
    by (simp only: resolve_rules_ok_iff)
  then show "\<exists>t. load_entries env h r [(pattern, rules_str)] tbl = (None, t)"
    by (auto simp: augment_add_message_def)
next
  assume le: "load_entries env h r (pre @ (pattern, rules_str) # post) tbl = (None, tbl1)"
  then obtain ta where pre: "load_entries env h r pre tbl = (None, ta)"
    and rest: "load_entries env h r ((pattern, rules_str) # post) ta = (None, tbl1)"
    by (auto simp: load_entries_append split: prod.splits option.splits)
  from rest obtain g where g: "resolve_rules (h r) (rules_of rules_str) [] = Inr g"
    and post: "load_entries env h r post (install r [] g ta) = (None, tbl1)"
    by (auto simp: assms augment_add_message_def split: sum.splits)
  from load_entries_shift [OF post] obtain new where
    n1: "\<forall>c. tbl1 c = new c @ install r [] g ta c" and
    n2: "\<forall>t'. load_entries env h r post t' = (None, \<lambda>c. new c @ t' c)"
    by blast
  let ?n0 = "rev (map (\<lambda>(k, m). \<lparr>ppfi_linter = r, ppfi_files = [], ppfi_messages = m\<rparr>)
      (filter (\<lambda>(k, m). cls k = c) g))"
  have l2: "load_entries env h r (pre @ post) tbl = (None, \<lambda>c. new c @ ta c)"
    using pre n2 by (simp add: load_entries_append)
  have t1: "tbl1 c = new c @ ?n0 @ ta c"
    using n1 by (simp add: install_chain)
  have nof: "\<forall>w\<in>set ?n0. ppfi_files w = []"
    by auto
  have drop: "call_chain env' h' (tbl1 c) args kw = Dropped \<longrightarrow>
      call_chain env' h' (new c @ ta c) args kw = Dropped"
    unfolding t1 using call_chain_drop_mono [OF nof] by blast
  have "load_entries env h r (pre @ post) tbl = (None, \<lambda>c. new c @ ta c) \<and>
      resolve_rules (h r) (rules_of rules_str) [] = Inr g \<and>
      tbl1 c = new c @ ?n0 @ ta c \<and>
      (\<lambda>c. new c @ ta c) c = new c @ ta c \<and>
      (call_chain env' h' (tbl1 c) args kw = Dropped \<longrightarrow>
       call_chain env' h' ((\<lambda>c. new c @ ta c) c) args kw = Dropped)"
    using l2 g t1 drop by simp
  then show "\<exists>tbl2 g a b.
      load_entries env h r (pre @ post) tbl = (None, tbl2) \<and>
      resolve_rules (h r) (rules_of rules_str) [] = Inr g \<and>
      tbl1 c =
        a @ rev (map (\<lambda>(k, m). \<lparr>ppfi_linter = r, ppfi_files = [], ppfi_messages = m\<rparr>)
          (filter (\<lambda>(k, m). cls k = c) g)) @ b \<and>
      tbl2 c = a @ b \<and>
      (call_chain env' h' (tbl1 c) args kw = Dropped \<longrightarrow>
       call_chain env' h' (tbl2 c) args kw = Dropped)"
    by blast
qed

theorem zero_match_entry_suppresses_nothing_witness:
  "files_of example_env ''none/*'' = [] \<and>
   (\<exists>t. load_entries example_env (\<lambda>r. example_linter [] None) 0
      [(''none/*'', ''W0401'')] (\<lambda>c. []) = (None, t)) \<and>
   load_entries example_env (\<lambda>r. example_linter [] None) 0
     [(''tests/*'', ''W0611''), (''none/*'', ''W0401''), (''other/*'', ''C0301'')] (\<lambda>c. []) =
   (None,
    (\<lambda>c. [])
    (''ImportsChecker'' :=
       [\<lparr>ppfi_linter = 0, ppfi_files = [],
          ppfi_messages = [\<lparr>msgid = ''W0401'', symbol = ''wildcard-import''\<rparr>]\<rparr>,
        \<lparr>ppfi_linter = 0, ppfi_files = [''/w/tests/a.py''],
          ppfi_messages = [\<lparr>msgid = ''W0611'', symbol = ''unused-import''\<rparr>]\<rparr>],
     ''FormatChecker'' :=
       [\<lparr>ppfi_linter = 0, ppfi_files = [''/w/other/c.py''],
          ppfi_messages = [\<lparr>msgid = ''C0301'', symbol = ''line-too-long''\<rparr>]\<rparr>])) \<and>
   call_chain example_env (\<lambda>r. example_linter [] (Some ''tests/a.py''))
     [\<lparr>ppfi_linter = 0, ppfi_files = [],
         ppfi_messages = [\<lparr>msgid = ''W0401'', symbol = ''wildcard-import''\<rparr>]\<rparr>,
      \<lparr>ppfi_linter = 0, ppfi_files = [''/w/tests/a.py''],
         ppfi_messages = [\<lparr>msgid = ''W0611'', symbol = ''unused-import''\<rparr>]\<rparr>]
     [PyObj 1, PyStr ''W0401''] [] \<noteq> Dropped"
proof -
  let ?h = "\<lambda>r::nat. example_linter [] None"
  let ?h' = "\<lambda>r::nat. example_linter [] (Some ''tests/a.py'')"
  let ?wn = "\<lparr>ppfi_linter = 0, ppfi_files = [],
      ppfi_messages = [\<lparr>msgid = ''W0401'', symbol = ''wildcard-import''\<rparr>]\<rparr>"
  let ?wt = "\<lparr>ppfi_linter = 0, ppfi_files = [''/w/tests/a.py''],
      ppfi_messages = [\<lparr>msgid = ''W0611'', symbol = ''unused-import''\<rparr>]\<rparr>"
  let ?wo = "\<lparr>ppfi_linter = 0, ppfi_files = [''/w/other/c.py''],
      ppfi_messages = [\<lparr>msgid = ''C0301'', symbol = ''line-too-long''\<rparr>]\<rparr>"
  let ?T1 = "(\<lambda>c. [])(''ImportsChecker'' := [?wn, ?wt], ''FormatChecker'' := [?wo])"
  let ?T2 = "(\<lambda>c. [])(''ImportsChecker'' := [?wt], ''FormatChecker'' := [?wo])"
  let ?args = "[PyObj 1, PyStr ''W0401'']"
  have f: "files_of example_env ''none/*'' = []"
    by (simp add: files_of_def example_env_def newline_def)
  have res: "\<forall>rule\<in>set (rules_of ''W0401''). msgs_store (?h 0) rule \<noteq> None \<and>
      (\<exists>k\<in>set (get_checkers (?h 0)). declares rule k)"
    by (simp add: str_defs ex_defs)
  have l1: "load_entries example_env ?h 0
      ([(''tests/*'', ''W0611'')] @ (''none/*'', ''W0401'') # [(''other/*'', ''C0301'')])
      (\<lambda>c. []) = (None, ?T1)"
    by (simp add: str_defs ex_defs)
  have l2: "load_entries example_env ?h 0
      ([(''tests/*'', ''W0611'')] @ [(''other/*'', ''C0301'')]) (\<lambda>c. []) = (None, ?T2)"
    by (simp add: str_defs ex_defs)
  have e2: "call_chain example_env ?h' (?T2 ''ImportsChecker'') ?args [] = Emitted ?args []"
    by (simp add: add_message_def ex_defs)
  note th = zero_match_entry_suppresses_nothing
    [where h = ?h and r = 0 and rules_str = "''W0401''" and tbl = "\<lambda>c. []"
      and pre = "[(''tests/*'', ''W0611'')]" and post = "[(''other/*'', ''C0301'')]"
      and ?tbl1.0 = ?T1 and c = "''ImportsChecker''" and env' = example_env and h' = ?h'
      and args = ?args and kw = "[]", OF f]
  from th res have a: "\<exists>t. load_entries example_env ?h 0 [(''none/*'', ''W0401'')] (\<lambda>c. []) =
      (None, t)"
    by blast
  from th l1 obtain tbl2 where
    "load_entries example_env ?h 0
      ([(''tests/*'', ''W0611'')] @ [(''other/*'', ''C0301'')]) (\<lambda>c. []) = (None, tbl2)"
    and d: "call_chain example_env ?h' (?T1 ''ImportsChecker'') ?args [] = Dropped \<longrightarrow>
      call_chain example_env ?h' (tbl2 ''ImportsChecker'') ?args [] = Dropped"
    by blast
  with l2 have "tbl2 = ?T2" by simp
  with d e2 have "call_chain example_env ?h' (?T1 ''ImportsChecker'') ?args [] \<noteq> Dropped"
    by auto
  then have n: "call_chain example_env ?h' [?wn, ?wt] ?args [] \<noteq> Dropped"
    by simp
  from l1 have l1': "load_entries example_env ?h 0
      [(''tests/*'', ''W0611''), (''none/*'', ''W0401''), (''other/*'', ''C0301'')]
      (\<lambda>c. []) = (None, ?T1)"
    by simp
  from f a l1' n show ?thesis by blast
qed

subsection \<open>A pattern given twice\<close>

text \<open>
  Claim C10. The lines are collected in a dict keyed by the pattern before any rule is
  resolved, so that a pattern keeps the rule list of its last line only. After a
  successful load an emission is dropped by the installed wrappers exactly when the file
  is matched by a pattern whose last rule list resolves to a definition of the emitted
  rule, for a checker of the class; otherwise it reaches the wrappers that were there
  before. The rule lists of the earlier lines with the pattern suppress nothing.
\<close>

theorem last_entry_for_a_pattern_wins:
  assumes "load_configuration env h r tbl = (None, tbl')"
    and "current_file (h' r) = Some F" and "F \<noteq> []"
    and "1 < length args" and "args ! 1 = PyStr R"
    and "msgs_store (h' r) R = Some defs"
  shows "call_chain env' h' (tbl' c) args kw =
    (if \<exists>p rs g k m.
          map_of (rev (map (\<lambda>line. (split CHR '':'' line ! 0, split CHR '':'' line ! 1))
            (parse_string (per_file_ignores (h r))))) p = Some rs \<and>
          absolute env' F \<in> set (files_of env p) \<and>
          resolve_rules (h r) (rules_of rs) [] = Inr g \<and> (k, m) \<in> set g \<and> cls k = c \<and>
          (\<exists>d\<in>set defs. d \<in> set m)
     then Dropped else call_chain env' h' (tbl c) args kw)"
proof -
  let ?M = "map_of (rev (map (\<lambda>line. (split CHR '':'' line ! 0, split CHR '':'' line ! 1))
            (parse_string (per_file_ignores (h r)))))"
  from assms(1) obtain cfg where cfg: "config_of (per_file_ignores (h r)) = Inr cfg"
    and le: "load_entries env h r cfg tbl = (None, tbl')"
    by (auto simp: load_configuration_def split: sum.splits)
  from config_of_Inr [OF cfg] have d: "distinct (map fst cfg)" and m: "map_of cfg = ?M"
    by simp_all
  have mem: "(p, rs) \<in> set cfg \<longleftrightarrow> ?M p = Some rs" for p rs
    using map_of_eq_Some_iff [OF d, of p rs] by (simp only: m)
  from load_entries_new [OF le, of c] obtain new where
    n1: "tbl' c = new @ tbl c" and
    n2: "set new =
     {\<lparr>ppfi_linter = r, ppfi_files = files_of env p, ppfi_messages = m\<rparr> | p rs g k m.
        (p, rs) \<in> set cfg \<and> resolve_rules (h r) (rules_of rs) [] = Inr g \<and>
        (k, m) \<in> set g \<and> cls k = c}"
    by blast
  from n2 have lin: "\<forall>w\<in>set new. ppfi_linter w = r"
    by auto
  have hit: "(\<exists>w\<in>set new. absolute env' F \<in> set (ppfi_files w) \<and>
          (\<exists>d\<in>set defs. d \<in> set (ppfi_messages w))) \<longleftrightarrow>
      (\<exists>p rs g k m. ?M p = Some rs \<and> absolute env' F \<in> set (files_of env p) \<and>
          resolve_rules (h r) (rules_of rs) [] = Inr g \<and> (k, m) \<in> set g \<and> cls k = c \<and>
          (\<exists>d\<in>set defs. d \<in> set m))"
    (is "?L \<longleftrightarrow> ?R")
  proof
    assume ?L
    then obtain w where w: "w \<in> set new" "absolute env' F \<in> set (ppfi_files w)"
      "\<exists>d\<in>set defs. d \<in> set (ppfi_messages w)"
      by blast
    from w(1) obtain p rs g k m where
      "w = \<lparr>ppfi_linter = r, ppfi_files = files_of env p, ppfi_messages = m\<rparr>"
      "(p, rs) \<in> set cfg" "resolve_rules (h r) (rules_of rs) [] = Inr g"
      "(k, m) \<in> set g" "cls k = c"
      unfolding n2 by blast
    with w(2,3) have "?M p = Some rs \<and> absolute env' F \<in> set (files_of env p) \<and>
          resolve_rules (h r) (rules_of rs) [] = Inr g \<and> (k, m) \<in> set g \<and> cls k = c \<and>
          (\<exists>d\<in>set defs. d \<in> set m)"
      by (simp add: mem)
    then show ?R by blast
  next
    assume ?R
    then obtain p rs g k m where a: "?M p = Some rs" "absolute env' F \<in> set (files_of env p)"
      "resolve_rules (h r) (rules_of rs) [] = Inr g" "(k, m) \<in> set g" "cls k = c"
      "\<exists>d\<in>set defs. d \<in> set m"
      by blast
    let ?w = "\<lparr>ppfi_linter = r, ppfi_files = files_of env p, ppfi_messages = m\<rparr>"
    from a(1) have "(p, rs) \<in> set cfg" by (simp only: mem)
    with a(3,4,5) have "?w \<in> set new"
      unfolding n2 by blast
    moreover from a(2,6) have "absolute env' F \<in> set (ppfi_files ?w) \<and>
        (\<exists>d\<in>set defs. d \<in> set (ppfi_messages ?w))"
      by simp
    ultimately show ?L by blast
  qed
  show ?thesis
    unfolding n1 call_chain_append_known [where h = h' and r = r, OF lin assms(2-6)] hit ..
qed

theorem last_entry_for_a_pattern_wins_witness:
  "load_configuration example_env
     (\<lambda>r. example_linter ''tests/*:W0611\<newline>other/*:C0301\<newline>tests/*:W0401'' None)
     0 (\<lambda>c. []) =
   (None,
    (\<lambda>c. [])
    (''ImportsChecker'' :=
       [\<lparr>ppfi_linter = 0, ppfi_files = [''/w/tests/a.py''],
          ppfi_messages = [\<lparr>msgid = ''W0401'', symbol = ''wildcard-import''\<rparr>]\<rparr>],
     ''FormatChecker'' :=
       [\<lparr>ppfi_linter = 0, ppfi_files = [''/w/other/c.py''],
          ppfi_messages = [\<lparr>msgid = ''C0301'', symbol = ''line-too-long''\<rparr>]\<rparr>])) \<and>
   call_chain example_env
     (\<lambda>r. example_linter ''tests/*:W0611\<newline>other/*:C0301\<newline>tests/*:W0401''
        (Some ''tests/a.py''))
     (((\<lambda>c. [])
       (''ImportsChecker'' :=
          [\<lparr>ppfi_linter = 0, ppfi_files = [''/w/tests/a.py''],
             ppfi_messages = [\<lparr>msgid = ''W0401'', symbol = ''wildcard-import''\<rparr>]\<rparr>],
        ''FormatChecker'' :=
          [\<lparr>ppfi_linter = 0, ppfi_files = [''/w/other/c.py''],
             ppfi_messages = [\<lparr>msgid = ''C0301'', symbol = ''line-too-long''\<rparr>]\<rparr>]))
      ''ImportsChecker'')
     [PyObj 1, PyStr ''W0611''] [] = Emitted [PyObj 1, PyStr ''W0611''] [] \<and>
   call_chain example_env
     (\<lambda>r. example_linter ''tests/*:W0611\<newline>other/*:C0301\<newline>tests/*:W0401''
        (Some ''tests/a.py''))
     (((\<lambda>c. [])
       (''ImportsChecker'' :=
          [\<lparr>ppfi_linter = 0, ppfi_files = [''/w/tests/a.py''],
             ppfi_messages = [\<lparr>msgid = ''W0401'', symbol = ''wildcard-import''\<rparr>]\<rparr>],
        ''FormatChecker'' :=
          [\<lparr>ppfi_linter = 0, ppfi_files = [''/w/other/c.py''],
             ppfi_messages = [\<lparr>msgid = ''C0301'', symbol = ''line-too-long''\<rparr>]\<rparr>]))
      ''ImportsChecker'')
     [PyObj 1, PyStr ''W0401''] [] = Dropped"
proof -
  let ?s = "''tests/*:W0611\<newline>other/*:C0301\<newline>tests/*:W0401''"
  let ?h = "\<lambda>r::nat. example_linter ?s None"
  let ?h' = "\<lambda>r::nat. example_linter ?s (Some ''tests/a.py'')"
  let ?T = "(\<lambda>c. [])
    (''ImportsChecker'' :=
       [\<lparr>ppfi_linter = 0, ppfi_files = [''/w/tests/a.py''],
          ppfi_messages = [\<lparr>msgid = ''W0401'', symbol = ''wildcard-import''\<rparr>]\<rparr>],
     ''FormatChecker'' :=
       [\<lparr>ppfi_linter = 0, ppfi_files = [''/w/other/c.py''],
          ppfi_messages = [\<lparr>msgid = ''C0301'', symbol = ''line-too-long''\<rparr>]\<rparr>])"
  have l: "load_configuration example_env ?h 0 (\<lambda>c. []) = (None, ?T)"
    by (simp add: str_defs ex_defs)
  have f: "current_file (?h' 0) = Some ''tests/a.py''" "''tests/a.py'' \<noteq> []"
    by (simp_all add: example_linter_def)
  have a1: "1 < length [PyObj 1, PyStr ''W0611'']" "[PyObj 1, PyStr ''W0611''] ! 1 = PyStr ''W0611''"
    "msgs_store (?h' 0) ''W0611'' = Some [\<lparr>msgid = ''W0611'', symbol = ''unused-import''\<rparr>]"
    by (simp_all add: example_linter_def example_store_def)
  have a2: "1 < length [PyObj 1, PyStr ''W0401'']" "[PyObj 1, PyStr ''W0401''] ! 1 = PyStr ''W0401''"
    "msgs_store (?h' 0) ''W0401'' = Some [\<lparr>msgid = ''W0401'', symbol = ''wildcard-import''\<rparr>]"
    by (simp_all add: example_linter_def example_store_def)
  have lines: "map_of (rev (map (\<lambda>line. (split CHR '':'' line ! 0, split CHR '':'' line ! 1))
      (parse_string (per_file_ignores (?h 0))))) =
      [''tests/*'' \<mapsto> ''W0611'', ''other/*'' \<mapsto> ''C0301'', ''tests/*'' \<mapsto> ''W0401'']"
    by (simp add: str_defs example_linter_def)
  have r1: "resolve_rules (?h 0) (rules_of ''W0401'') [] =
      Inr [(imports_checker, [\<lparr>msgid = ''W0401'', symbol = ''wildcard-import''\<rparr>])]"
    "resolve_rules (?h 0) (rules_of ''C0301'') [] =
      Inr [(format_checker, [\<lparr>msgid = ''C0301'', symbol = ''line-too-long''\<rparr>])]"
    by (simp_all add: str_defs ex_defs)
  have keys: "(p = ''tests/*'' \<and> rs = ''W0401'') \<or> (p = ''other/*'' \<and> rs = ''C0301'')"
    if "[''tests/*'' \<mapsto> ''W0611'', ''other/*'' \<mapsto> ''C0301'', ''tests/*'' \<mapsto> ''W0401''] p = Some rs"
    for p rs
    using that by (simp split: if_splits)
  have no: "\<not> (\<exists>p rs g k m.
      [''tests/*'' \<mapsto> ''W0611'', ''other/*'' \<mapsto> ''C0301'', ''tests/*'' \<mapsto> ''W0401''] p = Some rs \<and>
      absolute example_env ''tests/a.py'' \<in> set (files_of example_env p) \<and>
      resolve_rules (?h 0) (rules_of rs) [] = Inr g \<and> (k, m) \<in> set g \<and>
      cls k = ''ImportsChecker'' \<and>
      (\<exists>d\<in>set [\<lparr>msgid = ''W0611'', symbol = ''unused-import''\<rparr>]. d \<in> set m))"
  proof
    assume "\<exists>p rs g k m.
      [''tests/*'' \<mapsto> ''W0611'', ''other/*'' \<mapsto> ''C0301'', ''tests/*'' \<mapsto> ''W0401''] p = Some rs \<and>
      absolute example_env ''tests/a.py'' \<in> set (files_of example_env p) \<and>
      resolve_rules (?h 0) (rules_of rs) [] = Inr g \<and> (k, m) \<in> set g \<and>
      cls k = ''ImportsChecker'' \<and>
      (\<exists>d\<in>set [\<lparr>msgid = ''W0611'', symbol = ''unused-import''\<rparr>]. d \<in> set m)"
    then obtain p rs g k m where
      m: "[''tests/*'' \<mapsto> ''W0611'', ''other/*'' \<mapsto> ''C0301'', ''tests/*'' \<mapsto> ''W0401''] p = Some rs"
      and g: "resolve_rules (?h 0) (rules_of rs) [] = Inr g" and km: "(k, m) \<in> set g"
      and c: "cls k = ''ImportsChecker''"
      and d: "\<lparr>msgid = ''W0611'', symbol = ''unused-import''\<rparr> \<in> set m"
      by auto
    from keys [OF m] show False
    proof
      assume "p = ''tests/*'' \<and> rs = ''W0401''"
      with g r1(1) have "g = [(imports_checker, [\<lparr>msgid = ''W0401'', symbol = ''wildcard-import''\<rparr>])]"
        by simp
      with km d show False by simp
    next
      assume "p = ''other/*'' \<and> rs = ''C0301''"
      with g r1(2) have "g = [(format_checker, [\<lparr>msgid = ''C0301'', symbol = ''line-too-long''\<rparr>])]"
        by simp
      with km d show False by simp
    qed
  qed
  have yes: "\<exists>p rs g k m.
      [''tests/*'' \<mapsto> ''W0611'', ''other/*'' \<mapsto> ''C0301'', ''tests/*'' \<mapsto> ''W0401''] p = Some rs \<and>
      absolute example_env ''tests/a.py'' \<in> set (files_of example_env p) \<and>
      resolve_rules (?h 0) (rules_of rs) [] = Inr g \<and> (k, m) \<in> set g \<and>
      cls k = ''ImportsChecker'' \<and>
      (\<exists>d\<in>set [\<lparr>msgid = ''W0401'', symbol = ''wildcard-import''\<rparr>]. d \<in> set m)"
  proof -
    have "[''tests/*'' \<mapsto> ''W0611'', ''other/*'' \<mapsto> ''C0301'', ''tests/*'' \<mapsto> ''W0401'']
        ''tests/*'' = Some ''W0401'' \<and>
      absolute example_env ''tests/a.py'' \<in> set (files_of example_env ''tests/*'') \<and>
      resolve_rules (?h 0) (rules_of ''W0401'') [] =
        Inr [(imports_checker, [\<lparr>msgid = ''W0401'', symbol = ''wildcard-import''\<rparr>])] \<and>
      (imports_checker, [\<lparr>msgid = ''W0401'', symbol = ''wildcard-import''\<rparr>]) \<in>
        set [(imports_checker, [\<lparr>msgid = ''W0401'', symbol = ''wildcard-import''\<rparr>])] \<and>
      cls imports_checker = ''ImportsChecker'' \<and>
      (\<exists>d\<in>set [\<lparr>msgid = ''W0401'', symbol = ''wildcard-import''\<rparr>].
         d \<in> set [\<lparr>msgid = ''W0401'', symbol = ''wildcard-import''\<rparr>])"
      by (simp add: r1 files_of_def example_env_def imports_checker_def newline_def)
    then show ?thesis by blast
  qed
  have c1: "call_chain example_env ?h' (?T ''ImportsChecker'') [PyObj 1, PyStr ''W0611''] [] =
      Emitted [PyObj 1, PyStr ''W0611''] []"
    unfolding last_entry_for_a_pattern_wins
      [where env' = example_env and c = "''ImportsChecker''" and kw = "[]",
        OF l f a1, unfolded lines]
    using no by simp
  have c2: "call_chain example_env ?h' (?T ''ImportsChecker'') [PyObj 1, PyStr ''W0401''] [] =
      Dropped"
    unfolding last_entry_for_a_pattern_wins
      [where env' = example_env and c = "''ImportsChecker''" and kw = "[]",
        OF l f a2, unfolded lines]
    using yes by simp
  from l c1 c2 show ?thesis by simp
qed

end
